theory Spec2Isabelle
  imports Main
begin

section \<open>Python values, errors and results\<close>

text \<open>
  The values that reach the manager through untyped parameters (\<open>max_workers\<close>, the
  data that is pushed): \<open>None\<close>, booleans, unbounded integers and strings.
\<close>

datatype pyval = PNone | PBool bool | PInt int | PStr string

text \<open>Python's truth value testing, as used by \<open>x or y\<close> and \<open>if not x\<close>.\<close>

fun truthy :: "pyval \<Rightarrow> bool" where
  "truthy PNone = False"
| "truthy (PBool b) = b"
| "truthy (PInt i) = (i \<noteq> 0)"
| "truthy (PStr s) = (s \<noteq> [])"

text \<open>\<open>isinstance(value, int)\<close>: \<open>bool\<close> is a subclass of \<open>int\<close>.\<close>

fun isinstance_int :: "pyval \<Rightarrow> bool" where
  "isinstance_int (PInt i) = True"
| "isinstance_int (PBool b) = True"
| "isinstance_int v = False"

text \<open>
  The integer a value stands for in \<open>len(xs) >= v\<close>, \<open>range(v)\<close> and \<open>max(1, v)\<close>;
  \<open>None\<close> where Python raises \<open>TypeError\<close>.
\<close>

fun as_int :: "pyval \<Rightarrow> int option" where
  "as_int (PInt i) = Some i"
| "as_int (PBool b) = Some (if b then 1 else 0)"
| "as_int v = None"

text \<open>\<open>x or d\<close> for an optional boolean \<open>x\<close> and a boolean \<open>d\<close>.\<close>

definition or_bool :: "bool option \<Rightarrow> bool \<Rightarrow> bool" where
  "or_bool x d = (case x of Some True \<Rightarrow> True | _ \<Rightarrow> d)"

text \<open>\<open>s or d\<close> for an optional string \<open>s\<close> and a string \<open>d\<close>.\<close>

definition or_str :: "string option \<Rightarrow> string \<Rightarrow> string" where
  "or_str s d = (case s of None \<Rightarrow> d | Some t \<Rightarrow> if t = [] then d else t)"

text \<open>
  The exceptions of the source: \<open>TypeError\<close> (raised explicitly and by the
  interpreter), \<open>ValueError\<close> (\<open>list.remove\<close> of an absent element), and the error
  a worker stored, which \<open>wait\<close> raises again.
\<close>

datatype error = TypeError | ValueError | WorkerError string

section \<open>The worker (external collaborator)\<close>

text \<open>
  An envelope is what one call of a worker's push operation carries:
  \<open>(data, source_worker, destination_worker)\<close>.
\<close>

record envelope =
  payload :: pyval
  source_worker :: string
  destination_worker :: "string option"

text \<open>The calls the manager makes on a worker, recorded in order on the worker.\<close>

datatype call =
    Start
  | Terminate
  | Join
  | PushInput envelope
  | PushOutput envelope
  | PushConfiguration envelope

record worker =
  name :: string
  w_daemon :: bool
  w_spread_stop_signal :: bool
  w_spread_wait_signal :: bool
  w_targeted_processing :: bool
  w_delay_message_sharing :: bool
  w_delay_shutdown :: bool
  w_raise_exception :: bool
  concurrent_workers_names :: "string list"
  exception :: "(string \<times> string) option"
  alive :: bool
  calls :: "call list"

text \<open>
  Modelled from the spec: the class \<open>WorkerCore\<close>
  (\<open>PyFunceble.ext.process_manager.worker.core\<close>) is not among the sources. The
  spec gives its contract: a worker is \<open>Created\<close> when constructed, \<open>Running\<close>
  after \<open>start\<close>, \<open>Terminated\<close> after a forced termination; \<open>join\<close> returns
  once the worker has exited; \<open>is_alive\<close> reads the state; the three push operations
  take \<open>(data, source_worker, destination_worker?)\<close>; \<open>exception\<close> is a slot
  holding nothing or a pair \<open>(error, trace)\<close>. Every call is appended to the
  worker's \<open>calls\<close>.
\<close>

definition worker_start :: "worker \<Rightarrow> worker" where
  "worker_start w = w\<lparr>alive := True, calls := calls w @ [Start]\<rparr>"

definition worker_terminate :: "worker \<Rightarrow> worker" where
  "worker_terminate w = w\<lparr>alive := False, calls := calls w @ [Terminate]\<rparr>"

definition worker_join :: "worker \<Rightarrow> worker" where
  "worker_join w = w\<lparr>alive := False, calls := calls w @ [Join]\<rparr>"

definition is_alive :: "worker \<Rightarrow> bool" where
  "is_alive w = alive w"

definition worker_push :: "(envelope \<Rightarrow> call) \<Rightarrow> pyval \<Rightarrow> string \<Rightarrow> string option \<Rightarrow> worker \<Rightarrow> worker" where
  "worker_push queue data source dest w =
     w\<lparr>calls := calls w @
       [queue \<lparr>payload = data, source_worker = source, destination_worker = dest\<rparr>]\<rparr>"

section \<open>The manager\<close>

text \<open>
  \<open>ProcessManagerCore\<close>. Workers are objects: the two cohorts hold references
  (\<open>nat\<close>) into \<open>heap\<close>, and \<open>next_ref\<close> is the next unused reference. The field
  \<open>max_workers\<close> is the attribute \<open>_max_workers\<close>, which the property of the same
  name returns unchanged. \<open>WORKER_CLASS\<close> tells whether a worker class is bound
  (it is \<open>None\<close> otherwise, as in the tests). \<open>entropy\<close> holds the draws that
  \<open>random.choice\<close> will make. The queue handles, the delays and the extra keyword
  arguments are handed to the workers unchanged and are left out.
\<close>

record manager =
  WORKER_CLASS :: bool
  input_datasets :: "pyval list"
  output_datasets :: "pyval list"
  configuration_datasets :: "pyval list"
  global_exit_event :: bool
  daemon :: bool
  spread_stop_signal :: bool
  spread_wait_signal :: bool
  targeted_processing :: bool
  delay_message_sharing :: bool
  delay_shutdown :: bool
  raise_exception :: bool
  created_workers :: "nat list"
  running_workers :: "nat list"
  max_workers :: pyval
  heap :: "nat \<Rightarrow> worker"
  next_ref :: nat
  entropy :: "nat list"

text \<open>
  A method returns the manager, or raises, leaving the manager as it was mutated up to
  the raise.
\<close>

type_synonym 'a result = "(error \<times> manager) + 'a"

definition STD_NAME :: string where
  "STD_NAME = ''pyfunceble-process-manager''"

text \<open>The property \<open>name\<close> of the manager.\<close>

definition manager_name :: string where
  "manager_name = ''ppm-'' @ STD_NAME"

subsection \<open>Construction\<close>

text \<open>
  The property \<open>cpu_count\<close>, on the class attribute \<open>AVAILABLE_CPU_COUNT\<close>
  (\<open>os.cpu_count()\<close>, which is \<open>None\<close> when the host does not tell).
\<close>

definition cpu_count :: "int option \<Rightarrow> error + int" where
  "cpu_count available =
     (case available of
        None \<Rightarrow> Inl TypeError
      | Some c \<Rightarrow> if c > 2 then Inr (c - 2) else Inr c)"

record init_args =
  arg_max_workers :: pyval
  arg_daemon :: "bool option"
  arg_spread_stop_signal :: "bool option"
  arg_spread_wait_signal :: "bool option"
  arg_delay_message_sharing :: "bool option"
  arg_delay_shutdown :: "bool option"
  arg_raise_exception :: "bool option"
  arg_targeted_processing :: "bool option"

text \<open>
  The class attributes a new manager starts from: the bound worker class, the three
  datasets, the host's cpu count.
\<close>

record class_attrs =
  cls_WORKER_CLASS :: bool
  cls_input_datasets :: "pyval list"
  cls_output_datasets :: "pyval list"
  cls_configuration_datasets :: "pyval list"
  AVAILABLE_CPU_COUNT :: "int option"

text \<open>A worker no reference points to yet.\<close>

definition no_worker :: worker where
  "no_worker = \<lparr>name = [], w_daemon = False, w_spread_stop_signal = False,
     w_spread_wait_signal = False, w_targeted_processing = False,
     w_delay_message_sharing = False, w_delay_shutdown = False,
     w_raise_exception = False, concurrent_workers_names = [], exception = None,
     alive = False, calls = []\<rparr>"

text \<open>
  \<open>__init__\<close>. \<open>max_workers or self.cpu_count\<close> reads \<open>cpu_count\<close> only when
  \<open>max_workers\<close> is falsy, and stores the value in \<open>_max_workers\<close> directly.
\<close>

definition init :: "class_attrs \<Rightarrow> init_args \<Rightarrow> error + manager" where
  "init cls args =
     (case (if truthy (arg_max_workers args) then Inr (arg_max_workers args)
            else map_sum id PInt (cpu_count (AVAILABLE_CPU_COUNT cls))) of
        Inl e \<Rightarrow> Inl e
      | Inr mw \<Rightarrow> Inr
         \<lparr>WORKER_CLASS = cls_WORKER_CLASS cls,
          input_datasets = cls_input_datasets cls,
          output_datasets = cls_output_datasets cls,
          configuration_datasets = cls_configuration_datasets cls,
          global_exit_event = False,
          daemon = or_bool (arg_daemon args) False,
          spread_stop_signal =
            (case arg_spread_stop_signal args of None \<Rightarrow> False | Some b \<Rightarrow> b),
          spread_wait_signal =
            (case arg_spread_wait_signal args of None \<Rightarrow> False | Some b \<Rightarrow> b),
          targeted_processing = or_bool (arg_targeted_processing args) True,
          delay_message_sharing = or_bool (arg_delay_message_sharing args) False,
          delay_shutdown = or_bool (arg_delay_shutdown args) False,
          raise_exception = or_bool (arg_raise_exception args) False,
          created_workers = [],
          running_workers = [],
          max_workers = mw,
          heap = (\<lambda>r. no_worker),
          next_ref = 0,
          entropy = []\<rparr>)"

text \<open>
  The setter of the property \<open>max_workers\<close>. \<open>max(1, value)\<close> keeps its first
  argument unless the second is greater, so \<open>True\<close> and \<open>False\<close> give \<open>1\<close>.
\<close>

definition max_workers_setter :: "pyval \<Rightarrow> manager \<Rightarrow> manager result" where
  "max_workers_setter v m =
     (if \<not> isinstance_int v then Inl (TypeError, m)
      else Inr (m\<lparr>max_workers := (case v of PInt i \<Rightarrow> PInt (max 1 i) | _ \<Rightarrow> PInt 1)\<rparr>))"

subsection \<open>Spawning\<close>

text \<open>\<open>str(n)\<close> for a natural number, as the f-string of a worker's name needs it.\<close>

fun str_of_nat :: "nat \<Rightarrow> string" where
  "str_of_nat n =
     (if n < 10 then [''0123456789'' ! n]
      else str_of_nat (n div 10) @ [''0123456789'' ! (n mod 10)])"

declare str_of_nat.simps [simp del]

definition is_running :: "manager \<Rightarrow> bool" where
  "is_running m =
     (if running_workers m = [] then False
      else list_ex (\<lambda>x. is_alive (heap m x)) (running_workers m))"

text \<open>
  Modelled from the spec: the constructor of the absent \<open>WorkerCore\<close>, called as
  \<open>WORKER_CLASS(name=..., daemon=..., ...)\<close>: it keeps the options it is given; the
  new worker is \<open>Created\<close> (not alive), with an empty exception slot and no call yet.
\<close>

definition worker_init :: "string \<Rightarrow> bool \<Rightarrow> manager \<Rightarrow> worker" where
  "worker_init nm dmn m =
     \<lparr>name = nm, w_daemon = dmn,
      w_spread_stop_signal = spread_stop_signal m,
      w_spread_wait_signal = spread_wait_signal m,
      w_targeted_processing = targeted_processing m,
      w_delay_message_sharing = delay_message_sharing m,
      w_delay_shutdown = delay_shutdown m,
      w_raise_exception = raise_exception m,
      concurrent_workers_names = [], exception = None, alive = False, calls = []\<rparr>"

text \<open>
  \<open>spawn_worker(start, daemon)\<close>: the new worker's reference, or nothing when
  \<open>len(running_workers) >= max_workers\<close>. The comparison raises \<open>TypeError\<close> on a
  \<open>max_workers\<close> that is no integer, and so does calling an unbound worker class.
\<close>

definition spawn_worker :: "bool \<Rightarrow> bool option \<Rightarrow> manager \<Rightarrow> (nat option \<times> manager) result" where
  "spawn_worker start dmn m =
     (case as_int (max_workers m) of
        None \<Rightarrow> Inl (TypeError, m)
      | Some k \<Rightarrow>
          if int (length (running_workers m)) \<ge> k then Inr (None, m)
          else if \<not> WORKER_CLASS m then Inl (TypeError, m)
          else
            let r = next_ref m;
                w = worker_init
                      (''ppm-'' @ STD_NAME @ ''-'' @ str_of_nat (length (created_workers m) + 1))
                      (or_bool dmn (daemon m)) m;
                w = w\<lparr>concurrent_workers_names :=
                      (if is_running m then map (\<lambda>x. name (heap m x)) (created_workers m)
                       else map (\<lambda>x. name (heap m x)) (running_workers m))\<rparr>;
                m = m\<lparr>heap := (heap m)(r := w), next_ref := Suc r,
                      created_workers := created_workers m @ [r]\<rparr>
            in if start
               then Inr (Some r, m\<lparr>heap := (heap m)(r := worker_start (heap m r)),
                                   running_workers := running_workers m @ [r]\<rparr>)
               else Inr (Some r, m))"

text \<open>The loop of \<open>spawn_workers\<close>: \<open>n\<close> calls of \<open>spawn_worker(start=start)\<close>.\<close>

fun spawn_loop :: "nat \<Rightarrow> bool \<Rightarrow> manager \<Rightarrow> manager result" where
  "spawn_loop 0 start m = Inr m"
| "spawn_loop (Suc n) start m =
     (case spawn_worker start None m of
        Inl e \<Rightarrow> Inl e
      | Inr (w, m') \<Rightarrow> spawn_loop n start m')"

text \<open>
  \<open>spawn_workers(start)\<close>: \<open>range(self.max_workers)\<close> is read once, is empty for a
  negative bound and raises \<open>TypeError\<close> for a bound that is no integer.
\<close>

definition spawn_workers :: "bool \<Rightarrow> manager \<Rightarrow> manager result" where
  "spawn_workers start m =
     (case as_int (max_workers m) of
        None \<Rightarrow> Inl (TypeError, m)
      | Some k \<Rightarrow> spawn_loop (nat k) start m)"

subsection \<open>The decorators\<close>

definition ensure_worker_class_is_set :: "(manager \<Rightarrow> manager result) \<Rightarrow> manager \<Rightarrow> manager result" where
  "ensure_worker_class_is_set func m =
     (if \<not> WORKER_CLASS m then Inl (TypeError, m) else func m)"

definition ensure_worker_spawned :: "(manager \<Rightarrow> manager result) \<Rightarrow> manager \<Rightarrow> manager result" where
  "ensure_worker_spawned func m =
     (if created_workers m = []
      then (case spawn_workers False m of Inl e \<Rightarrow> Inl e | Inr m' \<Rightarrow> func m')
      else func m)"

definition ignore_if_running :: "(manager \<Rightarrow> manager result) \<Rightarrow> manager \<Rightarrow> manager result" where
  "ignore_if_running func m = (if is_running m then Inr m else func m)"

subsection \<open>Pushing data\<close>

text \<open>
  \<open>random.choice(workers)\<close> on a list that is not empty: the next draw of
  \<open>entropy\<close> picks the index.
\<close>

definition random_choice :: "nat list \<Rightarrow> nat list \<Rightarrow> nat \<times> nat list" where
  "random_choice es workers =
     (case es of
        [] \<Rightarrow> (workers ! 0, [])
      | e # es' \<Rightarrow> (workers ! (e mod length workers), es'))"

text \<open>
  The broadcast loop \<open>for worker in workers: worker.push_to_...(data,
  source_worker=source_worker, destination_worker=worker.name)\<close>.
\<close>

fun push_each :: "(envelope \<Rightarrow> call) \<Rightarrow> pyval \<Rightarrow> string \<Rightarrow> nat list \<Rightarrow> (nat \<Rightarrow> worker) \<Rightarrow> (nat \<Rightarrow> worker)" where
  "push_each queue data source [] h = h"
| "push_each queue data source (r # rs) h =
     push_each queue data source rs
       (h(r := worker_push queue data source (Some (name (h r))) (h r)))"

text \<open>
  The body the three push methods share, \<open>queue\<close> telling which push operation of
  the worker is called: the cohort is \<open>running_workers\<close> when a worker is running
  and \<open>created_workers\<close> otherwise; the source defaults to the manager's name; the
  data goes to every worker of the cohort, or to a random one without a destination.
\<close>

definition dispatch :: "(envelope \<Rightarrow> call) \<Rightarrow> pyval \<Rightarrow> string option \<Rightarrow> bool \<Rightarrow> manager \<Rightarrow> manager" where
  "dispatch queue data source all_queues m =
     (let workers = (if is_running m then running_workers m else created_workers m);
          source = or_str source manager_name
      in if all_queues then m\<lparr>heap := push_each queue data source workers (heap m)\<rparr>
         else if workers \<noteq> [] then
           (case random_choice (entropy m) workers of
              (r, es) \<Rightarrow>
                m\<lparr>heap := (heap m)(r := worker_push queue data source None (heap m r)),
                  entropy := es\<rparr>)
         else m)"

definition push_to_input_queue :: "pyval \<Rightarrow> string option \<Rightarrow> bool \<Rightarrow> manager \<Rightarrow> manager result" where
  "push_to_input_queue data source all_queues =
     ensure_worker_spawned (\<lambda>m. Inr (dispatch PushInput data source all_queues m))"

definition push_to_output_queues :: "pyval \<Rightarrow> string option \<Rightarrow> bool \<Rightarrow> manager \<Rightarrow> manager result" where
  "push_to_output_queues data source all_queues =
     ensure_worker_spawned (\<lambda>m. Inr (dispatch PushOutput data source all_queues m))"

definition push_to_configuration_queue :: "pyval \<Rightarrow> string option \<Rightarrow> bool \<Rightarrow> manager \<Rightarrow> manager result" where
  "push_to_configuration_queue data source all_queues =
     ensure_worker_spawned (\<lambda>m. Inr (dispatch PushConfiguration data source all_queues m))"

definition push_stop_signal :: "string option \<Rightarrow> manager \<Rightarrow> manager result" where
  "push_stop_signal source m = push_to_input_queue (PStr ''stop'') source True m"

definition push_wait_signal :: "string option \<Rightarrow> manager \<Rightarrow> manager result" where
  "push_wait_signal source m = push_to_input_queue (PStr ''wait'') source True m"

subsection \<open>Termination\<close>

text \<open>
  \<open>terminate_worker(worker)\<close>: \<open>terminate\<close>, then \<open>join\<close>, then the worker leaves
  each cohort it is in (\<open>list.remove\<close> takes the first occurrence out).
\<close>

definition terminate_worker :: "nat \<Rightarrow> manager \<Rightarrow> manager" where
  "terminate_worker r m =
     m\<lparr>heap := (heap m)(r := worker_join (worker_terminate (heap m r))),
       running_workers := remove1 r (running_workers m),
       created_workers := remove1 r (created_workers m)\<rparr>"

text \<open>
  The loop of \<open>terminate\<close> over its own list \<open>workers\<close>: a worker that is not alive
  is skipped.
\<close>

fun terminate_loop :: "nat list \<Rightarrow> manager \<Rightarrow> manager" where
  "terminate_loop [] m = m"
| "terminate_loop (r # rs) m =
     terminate_loop rs (if \<not> is_alive (heap m r) then m else terminate_worker r m)"

text \<open>
  \<open>terminate()\<close>. \<open>list(set(running_workers + created_workers))\<close> holds every
  worker of the two cohorts once, in an order Python does not fix; \<open>remdups\<close> is one
  such order. Every worker was given the manager's \<open>global_exit_event\<close>, so setting it
  through a random worker sets the manager's. The last step is the decorated
  \<open>push_to_output_queues("stop", all_queues=True)\<close>.
\<close>

definition terminate :: "manager \<Rightarrow> manager result" where
  "terminate m =
     (let workers = remdups (running_workers m @ created_workers m);
          m = (if workers \<noteq> [] then
                 (case random_choice (entropy m) workers of
                    (r, es) \<Rightarrow> m\<lparr>global_exit_event := True, entropy := es\<rparr>)
               else m);
          m = terminate_loop workers m
      in push_to_output_queues (PStr ''stop'') None True m)"

subsection \<open>Waiting\<close>

text \<open>
  The first loop of \<open>wait\<close>, \<open>for worker in self.running_workers\<close>, whose body
  removes the worker from the very list the loop walks: Python's list iterator keeps an
  index \<open>i\<close>, stops when \<open>i\<close> reaches the current length and reads the current
  list at \<open>i\<close>. \<open>created_workers.remove(worker)\<close> raises \<open>ValueError\<close> when the
  worker is not there. A stored exception ends the loop: \<open>terminate()\<close>, then the
  stored error is raised.
\<close>

definition join_and_remove :: "nat \<Rightarrow> manager \<Rightarrow> manager" where
  "join_and_remove r m =
     m\<lparr>heap := (heap m)(r := worker_terminate (worker_join (heap m r))),
       running_workers := remove1 r (running_workers m)\<rparr>"

function wait_running :: "nat \<Rightarrow> manager \<Rightarrow> manager result" where
  "wait_running i m =
     (if i < length (running_workers m) then
        (let r = running_workers m ! i;
             m1 = join_and_remove r m
         in if r \<notin> set (created_workers m1) then Inl (ValueError, m1)
            else
              (let m2 = m1\<lparr>created_workers := remove1 r (created_workers m1)\<rparr>
               in case exception (heap m2 r) of
                    Some (worker_error, trace) \<Rightarrow>
                      (case terminate m2 of
                         Inl e \<Rightarrow> Inl e
                       | Inr m3 \<Rightarrow> Inl (WorkerError worker_error, m3))
                  | None \<Rightarrow> wait_running (Suc i) m2))
      else Inr m)"
  by pat_completeness auto
termination
  by (relation "measure (\<lambda>(i, m). length (running_workers m) - i)")
     (auto simp: join_and_remove_def length_remove1)

text \<open>
  The second loop, \<open>for worker in self.created_workers\<close>, which removes from the list
  it walks in the same way.
\<close>

definition terminate_and_remove :: "nat \<Rightarrow> manager \<Rightarrow> manager" where
  "terminate_and_remove r m =
     m\<lparr>heap := (heap m)(r := worker_terminate (heap m r)),
       created_workers := remove1 r (created_workers m)\<rparr>"

function wait_created :: "nat \<Rightarrow> manager \<Rightarrow> manager result" where
  "wait_created i m =
     (if i < length (created_workers m) then
        (let r = created_workers m ! i;
             m1 = terminate_and_remove r m
         in case exception (heap m1 r) of
              Some (worker_error, trace) \<Rightarrow>
                (case terminate m1 of
                   Inl e \<Rightarrow> Inl e
                 | Inr m2 \<Rightarrow> Inl (WorkerError worker_error, m2))
            | None \<Rightarrow> wait_created (Suc i) m1)
      else Inr m)"
  by pat_completeness auto
termination
  by (relation "measure (\<lambda>(i, m). length (created_workers m) - i)")
     (auto simp: terminate_and_remove_def length_remove1)

text \<open>\<open>wait()\<close>: the two loops, then \<open>terminate()\<close>.\<close>

definition wait :: "manager \<Rightarrow> manager result" where
  "wait m =
     (case wait_running 0 m of
        Inl e \<Rightarrow> Inl e
      | Inr m1 \<Rightarrow>
          (case wait_created 0 m1 of
             Inl e \<Rightarrow> Inl e
           | Inr m2 \<Rightarrow> terminate m2))"

subsection \<open>Starting\<close>

text \<open>
  The first loop of \<open>start\<close>, over \<open>created_workers\<close> (which the loop does not
  change): each worker is started and appended to \<open>running_workers\<close>.
\<close>

fun start_workers :: "nat list \<Rightarrow> manager \<Rightarrow> manager" where
  "start_workers [] m = m"
| "start_workers (r # rs) m =
     start_workers rs
       (m\<lparr>heap := (heap m)(r := worker_start (heap m r)),
          running_workers := running_workers m @ [r]\<rparr>)"

text \<open>\<open>for data in datasets: push(data, source_worker="ppm")\<close>.\<close>

fun push_datasets :: "(pyval \<Rightarrow> manager \<Rightarrow> manager result) \<Rightarrow> pyval list \<Rightarrow> manager \<Rightarrow> manager result" where
  "push_datasets push [] m = Inr m"
| "push_datasets push (d # ds) m =
     (case push d m of Inl e \<Rightarrow> Inl e | Inr m' \<Rightarrow> push_datasets push ds m')"

text \<open>
  The body of \<open>start\<close>. \<open>push_to_input_queue\<close> and \<open>push_to_output_queues\<close> are
  called with their default \<open>all_queues=False\<close>, \<open>push_to_configuration_queue\<close>
  with its default \<open>all_queues=True\<close>.
\<close>

definition start_body :: "manager \<Rightarrow> manager result" where
  "start_body m =
     (let m = start_workers (created_workers m) m
      in case push_datasets (\<lambda>d. push_to_input_queue d (Some ''ppm'') False)
                (input_datasets m) m of
           Inl e \<Rightarrow> Inl e
         | Inr m \<Rightarrow>
             (case push_datasets (\<lambda>d. push_to_output_queues d (Some ''ppm'') False)
                     (output_datasets m) m of
                Inl e \<Rightarrow> Inl e
              | Inr m \<Rightarrow>
                  push_datasets (\<lambda>d. push_to_configuration_queue d (Some ''ppm'') True)
                    (configuration_datasets m) m))"

text \<open>\<open>start()\<close> under its three decorators, the outermost first.\<close>

definition start :: "manager \<Rightarrow> manager result" where
  "start = ensure_worker_class_is_set (ensure_worker_spawned (ignore_if_running start_body))"

text \<open>
  A sequence of \<open>spawn_worker\<close> and \<open>spawn_workers\<close> calls, run in order; the first
  raise ends it.
\<close>

datatype spawn_call = SpawnWorker bool "bool option" | SpawnWorkers bool

fun run_spawn_call :: "spawn_call \<Rightarrow> manager \<Rightarrow> manager result" where
  "run_spawn_call (SpawnWorker st dmn) m =
     (case spawn_worker st dmn m of Inl e \<Rightarrow> Inl e | Inr (w, m') \<Rightarrow> Inr m')"
| "run_spawn_call (SpawnWorkers st) m = spawn_workers st m"

fun run_spawn_calls :: "spawn_call list \<Rightarrow> manager \<Rightarrow> manager result" where
  "run_spawn_calls [] m = Inr m"
| "run_spawn_calls (c # cs) m =
     (case run_spawn_call c m of Inl e \<Rightarrow> Inl e | Inr m' \<Rightarrow> run_spawn_calls cs m')"

section \<open>Concrete inputs\<close>

text \<open>
  The class as the tests set it up (a worker class is bound, no dataset) on a host with
  eight cpus; a constructor call that gives \<open>max_workers\<close> only; and the manager such
  a call builds.
\<close>

definition tests_class :: class_attrs where
  "tests_class = \<lparr>cls_WORKER_CLASS = True, cls_input_datasets = [], cls_output_datasets = [],
     cls_configuration_datasets = [], AVAILABLE_CPU_COUNT = Some 8\<rparr>"

definition only_max_workers :: "pyval \<Rightarrow> init_args" where
  "only_max_workers mw = \<lparr>arg_max_workers = mw, arg_daemon = None, arg_spread_stop_signal = None,
     arg_spread_wait_signal = None, arg_delay_message_sharing = None, arg_delay_shutdown = None,
     arg_raise_exception = None, arg_targeted_processing = None\<rparr>"

definition fresh_manager :: "pyval \<Rightarrow> manager" where
  "fresh_manager mw =
     \<lparr>WORKER_CLASS = True, input_datasets = [], output_datasets = [],
      configuration_datasets = [], global_exit_event = False, daemon = False,
      spread_stop_signal = False, spread_wait_signal = False, targeted_processing = True,
      delay_message_sharing = False, delay_shutdown = False, raise_exception = False,
      created_workers = [], running_workers = [], max_workers = mw,
      heap = (\<lambda>r. no_worker), next_ref = 0, entropy = []\<rparr>"

section \<open>Construction and the worker bound\<close>

lemma or_bool_True: "or_bool x True = True"
  by (cases x) (simp_all add: or_bool_def split: bool.splits)

lemma init_Inr:
  assumes "init cls args = Inr m"
  shows "targeted_processing m = or_bool (arg_targeted_processing args) True"
    and "created_workers m = []"
    and "running_workers m = []"
    and "WORKER_CLASS m = cls_WORKER_CLASS cls"
    and "max_workers m = (if truthy (arg_max_workers args) then arg_max_workers args
           else case cpu_count (AVAILABLE_CPU_COUNT cls) of Inr c \<Rightarrow> PInt c | Inl e \<Rightarrow> PNone)"
proof -
  let ?mw = "if truthy (arg_max_workers args) then Inr (arg_max_workers args)
            else map_sum id PInt (cpu_count (AVAILABLE_CPU_COUNT cls))"
  from assms obtain mw where mw: "?mw = Inr mw"
    unfolding init_def by (cases ?mw) simp_all
  have m: "m = \<lparr>WORKER_CLASS = cls_WORKER_CLASS cls,
          input_datasets = cls_input_datasets cls,
          output_datasets = cls_output_datasets cls,
          configuration_datasets = cls_configuration_datasets cls,
          global_exit_event = False,
          daemon = or_bool (arg_daemon args) False,
          spread_stop_signal =
            (case arg_spread_stop_signal args of None \<Rightarrow> False | Some b \<Rightarrow> b),
          spread_wait_signal =
            (case arg_spread_wait_signal args of None \<Rightarrow> False | Some b \<Rightarrow> b),
          targeted_processing = or_bool (arg_targeted_processing args) True,
          delay_message_sharing = or_bool (arg_delay_message_sharing args) False,
          delay_shutdown = or_bool (arg_delay_shutdown args) False,
          raise_exception = or_bool (arg_raise_exception args) False,
          created_workers = [],
          running_workers = [],
          max_workers = mw,
          heap = (\<lambda>r. no_worker),
          next_ref = 0,
          entropy = []\<rparr>"
    using assms unfolding init_def mw by simp
  show "targeted_processing m = or_bool (arg_targeted_processing args) True"
    by (subst m) simp
  show "created_workers m = []" by (subst m) simp
  show "running_workers m = []" by (subst m) simp
  show "WORKER_CLASS m = cls_WORKER_CLASS cls" by (subst m) simp
  have "max_workers m = mw" by (subst m) simp
  moreover have "mw = (if truthy (arg_max_workers args) then arg_max_workers args
           else case cpu_count (AVAILABLE_CPU_COUNT cls) of Inr c \<Rightarrow> PInt c | Inl e \<Rightarrow> PNone)"
    using mw by (cases "cpu_count (AVAILABLE_CPU_COUNT cls)") (simp_all split: if_splits)
  ultimately show "max_workers m = (if truthy (arg_max_workers args) then arg_max_workers args
           else case cpu_count (AVAILABLE_CPU_COUNT cls) of Inr c \<Rightarrow> PInt c | Inl e \<Rightarrow> PNone)"
    by simp
qed

lemma init_returns:
  assumes "truthy (arg_max_workers args) \<or> AVAILABLE_CPU_COUNT cls = Some c"
  shows "\<exists>m. init cls args = Inr m"
proof (cases "truthy (arg_max_workers args)")
  case True
  then show ?thesis unfolding init_def by simp
next
  case False
  with assms have "AVAILABLE_CPU_COUNT cls = Some c" by simp
  with False show ?thesis unfolding init_def cpu_count_def by simp
qed

lemma init_fresh_manager:
  "truthy mw \<Longrightarrow> init tests_class (only_max_workers mw) = Inr (fresh_manager mw)"
  by (simp add: init_def tests_class_def only_max_workers_def fresh_manager_def or_bool_def)

text \<open>
  C9: for every host cpu count \<open>c\<close>, \<open>cpu_count\<close> is \<open>c - 2\<close> when \<open>c > 2\<close> and
  \<open>c\<close> otherwise; it is 2 on two cpus and 1 on three.
\<close>

theorem cpu_count_leaves_two:
  "cpu_count (Some c) = Inr (if c > 2 then c - 2 else c)
   \<and> cpu_count (Some 2) = Inr 2 \<and> cpu_count (Some 3) = Inr 1"
  by (simp add: cpu_count_def)

theorem cpu_count_leaves_two_witness:
  "cpu_count (Some 8) = Inr 6 \<and> cpu_count (Some 1) = Inr 1"
  using cpu_count_leaves_two [of 8] cpu_count_leaves_two [of 1] by simp

text \<open>
  C10: whatever is passed for \<open>targeted_processing\<close> (true, false or nothing), the
  manager that \<open>__init__\<close> returns has \<open>targeted_processing\<close> true.
\<close>

theorem init_targeted_processing:
  "init cls args = Inr m \<Longrightarrow> targeted_processing m = True"
  by (simp add: init_Inr(1) or_bool_True)

theorem init_targeted_processing_witness:
  "init tests_class ((only_max_workers (PInt 2))\<lparr>arg_targeted_processing := Some False\<rparr>)
     = Inr (fresh_manager (PInt 2))
   \<and> targeted_processing (fresh_manager (PInt 2)) = True"
proof -
  have m: "init tests_class ((only_max_workers (PInt 2))\<lparr>arg_targeted_processing := Some False\<rparr>)
     = Inr (fresh_manager (PInt 2))"
    by (simp add: init_def tests_class_def only_max_workers_def fresh_manager_def or_bool_def)
  from init_targeted_processing [OF m] m show ?thesis by simp
qed

text \<open>
  C4 as stated fails at construction: \<open>__init__\<close> writes \<open>max_workers or cpu_count\<close>
  into \<open>_max_workers\<close> without going through the setter, so \<open>max_workers=0\<close> on a
  host with eight cpus gives 6 and not \<open>max(1, 0) = 1\<close>.
\<close>

theorem max_workers_at_construction_counterexample:
  "init tests_class (only_max_workers (PInt 0)) = Inr (fresh_manager (PInt 6))
   \<and> max_workers (fresh_manager (PInt 6)) \<noteq> PInt (max 1 0)"
  by (simp add: init_def tests_class_def only_max_workers_def fresh_manager_def
        cpu_count_def or_bool_def)

lemma max_workers_setter_PInt:
  "max_workers_setter (PInt i) m = Inr (m\<lparr>max_workers := PInt (max 1 i)\<rparr>)"
  unfolding max_workers_setter_def by simp

lemma max_workers_setter_PBool:
  "max_workers_setter (PBool b) m = Inr (m\<lparr>max_workers := PInt 1\<rparr>)"
  unfolding max_workers_setter_def by simp

lemma max_workers_setter_int:
  assumes "isinstance_int v"
  shows "\<exists>i. as_int v = Some i \<and> max_workers_setter v m = Inr (m\<lparr>max_workers := PInt (max 1 i)\<rparr>)"
proof (cases v)
  case (PInt i)
  have "as_int v = Some i" using PInt by simp
  moreover have "max_workers_setter v m = Inr (m\<lparr>max_workers := PInt (max 1 i)\<rparr>)"
    unfolding PInt by (rule max_workers_setter_PInt)
  ultimately show ?thesis by (intro exI[of _ i] conjI)
next
  case (PBool b)
  let ?i = "if b then 1 else 0 :: int"
  have "as_int v = Some ?i" using PBool by simp
  moreover have "max 1 ?i = 1" by simp
  then have "max_workers_setter v m = Inr (m\<lparr>max_workers := PInt (max 1 ?i)\<rparr>)"
    unfolding PBool by (simp only: max_workers_setter_PBool)
  ultimately show ?thesis by (intro exI[of _ ?i] conjI)
next
  case PNone
  with assms show ?thesis by simp
next
  case (PStr x)
  with assms show ?thesis by simp
qed

lemma max_workers_setter_not_int:
  "\<not> isinstance_int v \<Longrightarrow> max_workers_setter v m = Inl (TypeError, m)"
  by (simp add: max_workers_setter_def)

lemma init_max_workers_default:
  assumes "arg_max_workers args \<in> {PNone, PInt 0}" and "AVAILABLE_CPU_COUNT cls = Some c"
  shows "\<exists>m'. init cls args = Inr m' \<and> max_workers m' = PInt (if c > 2 then c - 2 else c)"
proof -
  from assms(1) have f: "\<not> truthy (arg_max_workers args)" by auto
  from init_returns [of args cls c] assms(2) obtain m' where m': "init cls args = Inr m'"
    by blast
  from init_Inr(5) [OF m'] f assms(2)
  have "max_workers m' = PInt (if c > 2 then c - 2 else c)"
    by (simp add: cpu_count_def)
  with m' show ?thesis by blast
qed

lemma init_max_workers_positive:
  assumes "arg_max_workers args = PInt k" and "k > 0"
  shows "\<exists>m'. init cls args = Inr m' \<and> max_workers m' = PInt k"
proof -
  from assms have t: "truthy (arg_max_workers args)" by simp
  from init_returns [of args cls 0] t obtain m' where m': "init cls args = Inr m'"
    by blast
  from init_Inr(5) [OF m'] t assms(1) have "max_workers m' = PInt k" by simp
  with m' show ?thesis by blast
qed

text \<open>
  C4, amended: through the setter, an integer \<open>v\<close> (a boolean counting as 0 or 1) gives
  \<open>max(1, v)\<close> and any other value raises \<open>TypeError\<close>; at construction \<open>None\<close> and
  \<open>0\<close> fall back to \<open>cpu_count\<close> and a positive integer is kept as given.
\<close>

theorem max_workers_assignment:
  "(isinstance_int v \<longrightarrow>
      (\<exists>i. as_int v = Some i
           \<and> max_workers_setter v m = Inr (m\<lparr>max_workers := PInt (max 1 i)\<rparr>)))
   \<and> (\<not> isinstance_int v \<longrightarrow> max_workers_setter v m = Inl (TypeError, m))
   \<and> (arg_max_workers args \<in> {PNone, PInt 0} \<and> AVAILABLE_CPU_COUNT cls = Some c \<longrightarrow>
        (\<exists>m'. init cls args = Inr m' \<and> max_workers m' = PInt (if c > 2 then c - 2 else c)))
   \<and> (arg_max_workers args' = PInt k \<and> k > 0 \<longrightarrow>
        (\<exists>m'. init cls args' = Inr m' \<and> max_workers m' = PInt k))"
proof (intro conjI impI)
  assume "isinstance_int v"
  then show "\<exists>i. as_int v = Some i
      \<and> max_workers_setter v m = Inr (m\<lparr>max_workers := PInt (max 1 i)\<rparr>)"
    by (rule max_workers_setter_int)
next
  assume "\<not> isinstance_int v"
  then show "max_workers_setter v m = Inl (TypeError, m)"
    by (rule max_workers_setter_not_int)
next
  assume "arg_max_workers args \<in> {PNone, PInt 0} \<and> AVAILABLE_CPU_COUNT cls = Some c"
  then show "\<exists>m'. init cls args = Inr m' \<and> max_workers m' = PInt (if c > 2 then c - 2 else c)"
    using init_max_workers_default [of args cls c] by (elim conjE)
next
  assume "arg_max_workers args' = PInt k \<and> k > 0"
  then show "\<exists>m'. init cls args' = Inr m' \<and> max_workers m' = PInt k"
    using init_max_workers_positive [of args' k cls] by (elim conjE)
qed

theorem max_workers_assignment_witness:
  "max_workers_setter (PInt (- 1)) (fresh_manager (PInt 2))
      = Inr ((fresh_manager (PInt 2))\<lparr>max_workers := PInt 1\<rparr>)
   \<and> max_workers_setter (PStr ''1.0'') (fresh_manager (PInt 2))
      = Inl (TypeError, fresh_manager (PInt 2))
   \<and> (\<exists>m'. init tests_class (only_max_workers PNone) = Inr m' \<and> max_workers m' = PInt 6)
   \<and> (\<exists>m'. init tests_class (only_max_workers (PInt 3)) = Inr m' \<and> max_workers m' = PInt 3)"
proof -
  let ?M = "fresh_manager (PInt 2)"
  note a = max_workers_assignment [of "PInt (- 1)" ?M
          "only_max_workers PNone" tests_class 8 "only_max_workers (PInt 3)" 3]
  note b = max_workers_assignment [of "PStr ''1.0''" ?M
          "only_max_workers PNone" tests_class 8 "only_max_workers (PInt 3)" 3]
  have "\<exists>i. as_int (PInt (- 1)) = Some i
      \<and> max_workers_setter (PInt (- 1)) ?M = Inr (?M\<lparr>max_workers := PInt (max 1 i)\<rparr>)"
    by (rule a [THEN conjunct1, THEN mp]) simp
  then obtain i where i: "as_int (PInt (- 1)) = Some i"
    and s: "max_workers_setter (PInt (- 1)) ?M = Inr (?M\<lparr>max_workers := PInt (max 1 i)\<rparr>)"
    by (elim exE conjE)
  from i have "max 1 i = 1" by simp
  with s have 1: "max_workers_setter (PInt (- 1)) ?M = Inr (?M\<lparr>max_workers := PInt 1\<rparr>)"
    by (simp only:)
  have 2: "max_workers_setter (PStr ''1.0'') ?M = Inl (TypeError, ?M)"
    by (rule b [THEN conjunct2, THEN conjunct1, THEN mp]) simp
  have "\<exists>m'. init tests_class (only_max_workers PNone) = Inr m'
      \<and> max_workers m' = PInt (if (8::int) > 2 then 8 - 2 else 8)"
    by (rule a [THEN conjunct2, THEN conjunct2, THEN conjunct1, THEN mp])
       (simp add: only_max_workers_def tests_class_def)
  then obtain m3 where "init tests_class (only_max_workers PNone) = Inr m3"
    and "max_workers m3 = PInt (if (8::int) > 2 then 8 - 2 else 8)"
    by (elim exE conjE)
  moreover from this(2) have "max_workers m3 = PInt 6" by simp
  ultimately have 3: "\<exists>m'. init tests_class (only_max_workers PNone) = Inr m'
      \<and> max_workers m' = PInt 6"
    by (intro exI [of _ m3] conjI)
  have 4: "\<exists>m'. init tests_class (only_max_workers (PInt 3)) = Inr m' \<and> max_workers m' = PInt 3"
    by (rule a [THEN conjunct2, THEN conjunct2, THEN conjunct2, THEN mp])
       (simp add: only_max_workers_def)
  from 1 2 3 4 show ?thesis by (intro conjI)
qed

section \<open>Control signals\<close>

text \<open>
  C7: for every source \<open>s\<close> and every manager, \<open>push_stop_signal(source_worker=s)\<close> is
  \<open>push_to_input_queue("stop", source_worker=s, all_queues=True)\<close>, and
  \<open>push_wait_signal\<close> the same with \<open>"wait"\<close>: same result, same raise, same manager.
\<close>

theorem push_signals_are_broadcasts:
  "push_stop_signal s m = push_to_input_queue (PStr ''stop'') s True m
   \<and> push_wait_signal s m = push_to_input_queue (PStr ''wait'') s True m"
  by (simp add: push_stop_signal_def push_wait_signal_def)

theorem push_signals_are_broadcasts_witness:
  "push_stop_signal None (fresh_manager (PInt 3))
     = push_to_input_queue (PStr ''stop'') None True (fresh_manager (PInt 3))
   \<and> push_wait_signal (Some ''ppm'') (fresh_manager (PInt 3))
     = push_to_input_queue (PStr ''wait'') (Some ''ppm'') True (fresh_manager (PInt 3))"
  using push_signals_are_broadcasts [of None "fresh_manager (PInt 3)"]
        push_signals_are_broadcasts [of "Some ''ppm''" "fresh_manager (PInt 3)"]
  by simp

section \<open>Spawning\<close>

lemma spawn_worker_guard:
  assumes "spawn_worker st dmn m = Inr (Some r, m')"
  shows "\<exists>k. as_int (max_workers m) = Some k \<and> int (length (running_workers m)) < k"
    and "WORKER_CLASS m"
proof -
  from assms obtain k where k: "as_int (max_workers m) = Some k"
    unfolding spawn_worker_def by (cases "as_int (max_workers m)") simp_all
  from assms k have a: "\<not> k \<le> int (length (running_workers m))"
    unfolding spawn_worker_def by (cases "k \<le> int (length (running_workers m))") simp_all
  from assms k a show "WORKER_CLASS m"
    unfolding spawn_worker_def by (cases "WORKER_CLASS m") simp_all
  from k a show "\<exists>k. as_int (max_workers m) = Some k \<and> int (length (running_workers m)) < k"
    by (intro exI [of _ k]) simp
qed

lemma spawn_worker_returns:
  assumes "as_int (max_workers m) = Some k" and "int (length (running_workers m)) < k"
    and "WORKER_CLASS m"
  shows "\<exists>m'. spawn_worker st dmn m = Inr (Some (next_ref m), m')"
  using assms unfolding spawn_worker_def Let_def by (cases st) simp_all

lemma spawn_worker_Some:
  assumes "spawn_worker st dmn m = Inr (Some r, m')"
  shows "r = next_ref m"
    and "created_workers m' = created_workers m @ [r]"
    and "running_workers m' = (if st then running_workers m @ [r] else running_workers m)"
    and "next_ref m' = Suc r"
    and "\<And>x. x \<noteq> r \<Longrightarrow> heap m' x = heap m x"
    and "alive (heap m' r) = st"
    and "calls (heap m' r) = (if st then [Start] else [])"
    and "name (heap m' r) = ''ppm-'' @ STD_NAME @ ''-'' @ str_of_nat (length (created_workers m) + 1)"
    and "max_workers m' = max_workers m"
    and "WORKER_CLASS m' = WORKER_CLASS m"
    and "entropy m' = entropy m"
    and "global_exit_event m' = global_exit_event m"
proof -
  from spawn_worker_guard [OF assms] obtain k where
    k: "as_int (max_workers m) = Some k" "\<not> k \<le> int (length (running_workers m))" "WORKER_CLASS m"
    by auto
  note u = spawn_worker_def Let_def
  show "r = next_ref m" using assms k unfolding u by (cases st) simp_all
  show "created_workers m' = created_workers m @ [r]"
    using assms k unfolding u by (cases st) auto
  show "running_workers m' = (if st then running_workers m @ [r] else running_workers m)"
    using assms k unfolding u by (cases st) auto
  show "next_ref m' = Suc r" using assms k unfolding u by (cases st) auto
  show "\<And>x. x \<noteq> r \<Longrightarrow> heap m' x = heap m x"
    using assms k unfolding u by (cases st) auto
  show "alive (heap m' r) = st"
    using assms k unfolding u by (cases st) (auto simp: worker_start_def worker_init_def)
  show "calls (heap m' r) = (if st then [Start] else [])"
    using assms k unfolding u by (cases st) (auto simp: worker_start_def worker_init_def)
  show "name (heap m' r) = ''ppm-'' @ STD_NAME @ ''-'' @ str_of_nat (length (created_workers m) + 1)"
    using assms k unfolding u by (cases st) (auto simp: worker_start_def worker_init_def)
  show "max_workers m' = max_workers m" using assms k unfolding u by (cases st) auto
  show "WORKER_CLASS m' = WORKER_CLASS m" using assms k unfolding u by (cases st) auto
  show "entropy m' = entropy m" using assms k unfolding u by (cases st) auto
  show "global_exit_event m' = global_exit_event m"
    using assms k unfolding u by (cases st) auto
qed

lemma spawn_worker_None:
  assumes "spawn_worker st dmn m = Inr (None, m')"
  shows "m' = m"
  using assms unfolding spawn_worker_def Let_def
  by (cases "as_int (max_workers m)"; cases st; cases "WORKER_CLASS m") (auto split: if_splits)

text \<open>
  C8: a \<open>spawn_worker\<close> call that creates a worker sets the worker's
  \<open>concurrent_workers_names\<close> to the names of \<open>created_workers\<close> when
  \<open>is_running()\<close> is true and to the names of \<open>running_workers\<close> when it is false
  (both read before the new worker is appended).
\<close>

theorem spawn_worker_concurrent_workers_names:
  assumes "spawn_worker st dmn m = Inr (Some r, m')"
  shows "concurrent_workers_names (heap m' r) =
           (if is_running m then map (\<lambda>x. name (heap m x)) (created_workers m)
            else map (\<lambda>x. name (heap m x)) (running_workers m))"
proof -
  from spawn_worker_guard [OF assms] obtain k where
    k: "as_int (max_workers m) = Some k" "\<not> k \<le> int (length (running_workers m))" "WORKER_CLASS m"
    by auto
  show ?thesis using assms k unfolding spawn_worker_def Let_def
    by (cases st) (auto simp: worker_start_def worker_init_def)
qed

theorem spawn_worker_concurrent_workers_names_witness:
  "\<exists>r1 m1 r2 m2.
     spawn_worker True None (fresh_manager (PInt 2)) = Inr (Some r1, m1)
     \<and> spawn_worker False None m1 = Inr (Some r2, m2)
     \<and> concurrent_workers_names (heap m1 r1) = []
     \<and> concurrent_workers_names (heap m2 r2) = [''ppm-pyfunceble-process-manager-1'']"
proof -
  let ?M = "fresh_manager (PInt 2)"
  have "\<exists>m'. spawn_worker True None ?M = Inr (Some (next_ref ?M), m')"
    by (rule spawn_worker_returns [of _ 2]) (simp_all add: fresh_manager_def)
  then obtain m1 where s1: "spawn_worker True None ?M = Inr (Some (next_ref ?M), m1)" ..
  note f1 = spawn_worker_Some [OF s1]
  have run1: "running_workers m1 = [next_ref ?M]" using f1(3) by (simp add: fresh_manager_def)
  have cr1: "created_workers m1 = [next_ref ?M]" using f1(2) by (simp add: fresh_manager_def)
  have r1: "is_running m1" using run1 f1(6) by (simp add: is_running_def is_alive_def)
  have n1: "name (heap m1 (next_ref ?M)) = ''ppm-pyfunceble-process-manager-1''"
    using f1(8) by (simp add: fresh_manager_def STD_NAME_def str_of_nat.simps)
  have c1: "concurrent_workers_names (heap m1 (next_ref ?M)) = []"
    using spawn_worker_concurrent_workers_names [OF s1]
    by (simp add: fresh_manager_def is_running_def)
  have "\<exists>m'. spawn_worker False None m1 = Inr (Some (next_ref m1), m')"
    by (rule spawn_worker_returns [of _ 2])
       (simp_all add: f1(9) f1(10) run1 fresh_manager_def)
  then obtain m2 where s2: "spawn_worker False None m1 = Inr (Some (next_ref m1), m2)" ..
  have c2: "concurrent_workers_names (heap m2 (next_ref m1)) = [''ppm-pyfunceble-process-manager-1'']"
    using spawn_worker_concurrent_workers_names [OF s2] r1 cr1 n1 by simp
  from s1 s2 c1 c2 show ?thesis by blast
qed

section \<open>Broadcast pushes\<close>

lemma push_each_other: "r \<notin> set ws \<Longrightarrow> push_each q d s ws h r = h r"
  by (induction ws arbitrary: h) auto

lemma push_each_name: "name (push_each q d s ws h r) = name (h r)"
  by (induction ws arbitrary: h) (auto simp: worker_push_def)

lemma push_each_alive: "alive (push_each q d s ws h r) = alive (h r)"
  by (induction ws arbitrary: h) (auto simp: worker_push_def)

lemma push_each_calls:
  "calls (push_each q d s ws h r) =
     calls (h r) @ replicate (count_list ws r)
       (q \<lparr>payload = d, source_worker = s, destination_worker = Some (name (h r))\<rparr>)"
proof (induction ws arbitrary: h)
  case Nil
  show ?case by simp
next
  case (Cons w ws)
  let ?h' = "h(w := worker_push q d s (Some (name (h w))) (h w))"
  have step: "calls (push_each q d s (w # ws) h r) = calls (push_each q d s ws ?h' r)"
    by simp
  have ih: "calls (push_each q d s ws ?h' r) =
     calls (?h' r) @ replicate (count_list ws r)
       (q \<lparr>payload = d, source_worker = s, destination_worker = Some (name (?h' r))\<rparr>)"
    by (rule Cons)
  show ?case
  proof (cases "w = r")
    case True
    have "calls (?h' r) = calls (h r) @
        [q \<lparr>payload = d, source_worker = s, destination_worker = Some (name (h r))\<rparr>]"
      and "name (?h' r) = name (h r)"
      using True by (simp_all add: worker_push_def)
    with step ih True show ?thesis
      by (simp add: replicate_append_same del: push_each.simps)
  next
    case False
    then have "?h' r = h r" by simp
    with step ih False show ?thesis by (simp del: push_each.simps)
  qed
qed

lemma dispatch_broadcast_fields:
  "created_workers (dispatch q d s True m) = created_workers m"
  "running_workers (dispatch q d s True m) = running_workers m"
  "max_workers (dispatch q d s True m) = max_workers m"
  "WORKER_CLASS (dispatch q d s True m) = WORKER_CLASS m"
  "entropy (dispatch q d s True m) = entropy m"
  "next_ref (dispatch q d s True m) = next_ref m"
  "global_exit_event (dispatch q d s True m) = global_exit_event m"
  "heap (dispatch q d s True m) =
     push_each q d (or_str s manager_name)
       (if is_running m then running_workers m else created_workers m) (heap m)"
  by (simp_all add: dispatch_def Let_def)

section \<open>The lazy spawn of a pool with no running worker\<close>

lemma spawn_loop_False:
  assumes "running_workers m = []" and "WORKER_CLASS m"
    and "as_int (max_workers m) = Some k" and "int n \<le> k"
  shows "\<exists>m1. spawn_loop n False m = Inr m1
     \<and> created_workers m1 = created_workers m @ [next_ref m ..< next_ref m + n]
     \<and> running_workers m1 = []
     \<and> next_ref m1 = next_ref m + n
     \<and> (\<forall>x. x < next_ref m \<longrightarrow> heap m1 x = heap m x)
     \<and> (\<forall>x. next_ref m \<le> x \<and> x < next_ref m + n \<longrightarrow>
           calls (heap m1 x) = [] \<and> \<not> alive (heap m1 x)
           \<and> name (heap m1 x) = ''ppm-'' @ STD_NAME @ ''-''
                @ str_of_nat (length (created_workers m) + (x - next_ref m) + 1))
     \<and> WORKER_CLASS m1 \<and> max_workers m1 = max_workers m
     \<and> entropy m1 = entropy m \<and> global_exit_event m1 = global_exit_event m"
  using assms
proof (induction n arbitrary: m)
  case 0
  have "\<forall>x. next_ref m \<le> x \<and> x < next_ref m + 0 \<longrightarrow>
           calls (heap m x) = [] \<and> \<not> alive (heap m x)
           \<and> name (heap m x) = ''ppm-'' @ STD_NAME @ ''-''
                @ str_of_nat (length (created_workers m) + (x - next_ref m) + 1)"
    by (intro allI impI) arith
  with 0 show ?case by (intro exI [of _ m] conjI) simp_all
next
  case (Suc n)
  let ?r = "next_ref m"
  from Suc.prems have lt: "int (length (running_workers m)) < k" by simp
  from spawn_worker_returns [OF Suc.prems(3) lt Suc.prems(2)]
  obtain m' where s: "spawn_worker False None m = Inr (Some ?r, m')" by blast
  note f = spawn_worker_Some [OF s]
  have p1: "running_workers m' = []" using f(3) Suc.prems(1) by simp
  have p2: "WORKER_CLASS m'" using f(10) Suc.prems(2) by simp
  have p3: "as_int (max_workers m') = Some k" using f(9) Suc.prems(3) by simp
  have p4: "int n \<le> k" using Suc.prems(4) by simp
  from Suc.IH [OF p1 p2 p3 p4] obtain m1 where
    l: "spawn_loop n False m' = Inr m1"
    and c: "created_workers m1 = created_workers m' @ [next_ref m' ..< next_ref m' + n]"
    and ru: "running_workers m1 = []"
    and nr: "next_ref m1 = next_ref m' + n"
    and old: "\<forall>x. x < next_ref m' \<longrightarrow> heap m1 x = heap m' x"
    and new: "\<forall>x. next_ref m' \<le> x \<and> x < next_ref m' + n \<longrightarrow>
           calls (heap m1 x) = [] \<and> \<not> alive (heap m1 x)
           \<and> name (heap m1 x) = ''ppm-'' @ STD_NAME @ ''-''
                @ str_of_nat (length (created_workers m') + (x - next_ref m') + 1)"
    and wc: "WORKER_CLASS m1" and mw: "max_workers m1 = max_workers m'"
    and en: "entropy m1 = entropy m'" and ev: "global_exit_event m1 = global_exit_event m'"
    by (elim exE conjE)
  have g1: "spawn_loop (Suc n) False m = Inr m1" using s l by simp
  have g2: "created_workers m1 = created_workers m @ [?r ..< ?r + Suc n]"
    using c f(2) f(4) by (simp add: upt_conv_Cons)
  have g3: "next_ref m1 = ?r + Suc n" using nr f(4) by simp
  have g4: "\<forall>x. x < ?r \<longrightarrow> heap m1 x = heap m x"
  proof (intro allI impI)
    fix x assume x: "x < ?r"
    then have "heap m1 x = heap m' x" using old f(4) by simp
    also have "\<dots> = heap m x" using x by (intro f(5)) simp
    finally show "heap m1 x = heap m x" .
  qed
  have g5: "\<forall>x. ?r \<le> x \<and> x < ?r + Suc n \<longrightarrow>
           calls (heap m1 x) = [] \<and> \<not> alive (heap m1 x)
           \<and> name (heap m1 x) = ''ppm-'' @ STD_NAME @ ''-''
                @ str_of_nat (length (created_workers m) + (x - ?r) + 1)"
  proof (intro allI impI)
    fix x assume x: "?r \<le> x \<and> x < ?r + Suc n"
    show "calls (heap m1 x) = [] \<and> \<not> alive (heap m1 x)
           \<and> name (heap m1 x) = ''ppm-'' @ STD_NAME @ ''-''
                @ str_of_nat (length (created_workers m) + (x - ?r) + 1)"
    proof (cases "x = ?r")
      case True
      have "heap m1 x = heap m' ?r" using old f(4) True by simp
      then show ?thesis using f(6) f(7) f(8) True by simp
    next
      case False
      with x have b: "next_ref m' \<le> x \<and> x < next_ref m' + n" using f(4) by simp
      have len: "length (created_workers m') + (x - next_ref m') + 1
          = length (created_workers m) + (x - ?r) + 1"
      proof -
        have "length (created_workers m') = Suc (length (created_workers m))"
          using f(2) by simp
        moreover have "next_ref m' = Suc ?r" by (rule f(4))
        ultimately show ?thesis using b by arith
      qed
      from new b have "calls (heap m1 x) = [] \<and> \<not> alive (heap m1 x)
           \<and> name (heap m1 x) = ''ppm-'' @ STD_NAME @ ''-''
                @ str_of_nat (length (created_workers m') + (x - next_ref m') + 1)"
        by blast
      then show ?thesis unfolding len .
    qed
  qed
  have g6: "max_workers m1 = max_workers m" using mw f(9) by simp
  have g7: "entropy m1 = entropy m" using en f(11) by simp
  have g8: "global_exit_event m1 = global_exit_event m" using ev f(12) by simp
  from g1 g2 ru g3 g4 g5 wc g6 g7 g8 show ?case by (intro exI [of _ m1] conjI)
qed

lemma lazy_spawn:
  assumes "running_workers m = []" and "WORKER_CLASS m"
    and "max_workers m = PInt k" and "0 \<le> k"
  shows "\<exists>m1. spawn_workers False m = Inr m1
     \<and> created_workers m1 = created_workers m @ [next_ref m ..< next_ref m + nat k]
     \<and> running_workers m1 = []
     \<and> next_ref m1 = next_ref m + nat k
     \<and> (\<forall>x. x < next_ref m \<longrightarrow> heap m1 x = heap m x)
     \<and> (\<forall>x. next_ref m \<le> x \<and> x < next_ref m + nat k \<longrightarrow>
           calls (heap m1 x) = [] \<and> \<not> alive (heap m1 x)
           \<and> name (heap m1 x) = ''ppm-'' @ STD_NAME @ ''-''
                @ str_of_nat (length (created_workers m) + (x - next_ref m) + 1))
     \<and> WORKER_CLASS m1 \<and> max_workers m1 = max_workers m
     \<and> entropy m1 = entropy m \<and> global_exit_event m1 = global_exit_event m"
proof -
  have a: "as_int (max_workers m) = Some k" using assms(3) by simp
  have b: "int (nat k) \<le> k" using assms(4) by simp
  have "spawn_workers False m = spawn_loop (nat k) False m"
    unfolding spawn_workers_def a by simp
  then show ?thesis using spawn_loop_False [OF assms(1) assms(2) a b] by (simp only:)
qed

lemma push_to_queue_lazy:
  assumes "created_workers m = []" and "spawn_workers False m = Inr m1"
  shows "push_to_input_queue d s a m = Inr (dispatch PushInput d s a m1)"
    and "push_to_output_queues d s a m = Inr (dispatch PushOutput d s a m1)"
    and "push_to_configuration_queue d s a m = Inr (dispatch PushConfiguration d s a m1)"
  using assms
  by (simp_all add: push_to_input_queue_def push_to_output_queues_def
        push_to_configuration_queue_def ensure_worker_spawned_def)

lemma push_to_queue_spawned:
  assumes "created_workers m \<noteq> []"
  shows "push_to_input_queue d s a m = Inr (dispatch PushInput d s a m)"
    and "push_to_output_queues d s a m = Inr (dispatch PushOutput d s a m)"
    and "push_to_configuration_queue d s a m = Inr (dispatch PushConfiguration d s a m)"
  using assms
  by (simp_all add: push_to_input_queue_def push_to_output_queues_def
        push_to_configuration_queue_def ensure_worker_spawned_def)

lemma terminate_empty_pool:
  assumes "created_workers m = []" and "running_workers m = []"
  shows "terminate m = push_to_output_queues (PStr ''stop'') None True m"
  using assms by (simp add: terminate_def)


lemma distinct_count_list: "distinct xs \<Longrightarrow> x \<in> set xs \<Longrightarrow> count_list xs x = 1"
  by (induction xs) auto

lemma is_running_Nil: "running_workers m = [] \<Longrightarrow> \<not> is_running m"
  by (simp add: is_running_def)

text \<open>
  What a broadcast push does to a pool with no running worker that it has to spawn
  first: the \<open>k\<close> new workers get one envelope each, addressed to them, and nothing else
  happened to them.
\<close>

lemma broadcast_lazy:
  assumes "created_workers m = []" and "running_workers m = []" and "WORKER_CLASS m"
    and "max_workers m = PInt k" and "0 \<le> k"
    and push: "\<And>m1. spawn_workers False m = Inr m1 \<Longrightarrow> f m = Inr (dispatch q d s True m1)"
  shows "\<exists>m'. f m = Inr m'
     \<and> running_workers m' = []
     \<and> created_workers m' = [next_ref m ..< next_ref m + nat k]
     \<and> (\<forall>r \<in> set (created_workers m').
           calls (heap m' r) =
             [q \<lparr>payload = d, source_worker = or_str s manager_name,
                 destination_worker = Some (name (heap m' r))\<rparr>]
           \<and> \<not> alive (heap m' r)
           \<and> name (heap m' r) = ''ppm-'' @ STD_NAME @ ''-'' @ str_of_nat (r - next_ref m + 1))
     \<and> global_exit_event m' = global_exit_event m"
proof -
  from lazy_spawn [OF assms(2) assms(3) assms(4) assms(5)] obtain m1 where
    sp: "spawn_workers False m = Inr m1"
    and c: "created_workers m1 = created_workers m @ [next_ref m ..< next_ref m + nat k]"
    and ru: "running_workers m1 = []"
    and new: "\<forall>x. next_ref m \<le> x \<and> x < next_ref m + nat k \<longrightarrow>
           calls (heap m1 x) = [] \<and> \<not> alive (heap m1 x)
           \<and> name (heap m1 x) = ''ppm-'' @ STD_NAME @ ''-''
                @ str_of_nat (length (created_workers m) + (x - next_ref m) + 1)"
    and ev: "global_exit_event m1 = global_exit_event m"
    by (elim exE conjE)
  let ?m' = "dispatch q d s True m1"
  let ?ws = "[next_ref m ..< next_ref m + nat k]"
  have c1: "created_workers m1 = ?ws" using c assms(1) by simp
  have g1: "f m = Inr ?m'" by (rule push [OF sp])
  have g2: "running_workers ?m' = []" using ru by (simp add: dispatch_broadcast_fields)
  have g3: "created_workers ?m' = ?ws" using c1 by (simp add: dispatch_broadcast_fields)
  have h: "heap ?m' = push_each q d (or_str s manager_name) ?ws (heap m1)"
    using is_running_Nil [OF ru] c1 by (simp add: dispatch_broadcast_fields)
  have g4: "\<forall>r \<in> set (created_workers ?m').
           calls (heap ?m' r) =
             [q \<lparr>payload = d, source_worker = or_str s manager_name,
                 destination_worker = Some (name (heap ?m' r))\<rparr>]
           \<and> \<not> alive (heap ?m' r)
           \<and> name (heap ?m' r) = ''ppm-'' @ STD_NAME @ ''-'' @ str_of_nat (r - next_ref m + 1)"
  proof
    fix r assume "r \<in> set (created_workers ?m')"
    then have r: "r \<in> set ?ws" unfolding g3 .
    then have b: "next_ref m \<le> r \<and> r < next_ref m + nat k" by simp
    from new b have n: "calls (heap m1 r) = []" "\<not> alive (heap m1 r)"
      "name (heap m1 r) = ''ppm-'' @ STD_NAME @ ''-''
                @ str_of_nat (length (created_workers m) + (r - next_ref m) + 1)"
      by blast+
    have cnt: "count_list ?ws r = 1" using r by (intro distinct_count_list) simp_all
    have "calls (heap ?m' r) = calls (heap m1 r) @ replicate (count_list ?ws r)
       (q \<lparr>payload = d, source_worker = or_str s manager_name,
            destination_worker = Some (name (heap m1 r))\<rparr>)"
      unfolding h by (rule push_each_calls)
    moreover have nm: "name (heap ?m' r) = name (heap m1 r)"
      unfolding h by (rule push_each_name)
    moreover have "alive (heap ?m' r) = alive (heap m1 r)"
      unfolding h by (rule push_each_alive)
    ultimately show "calls (heap ?m' r) =
             [q \<lparr>payload = d, source_worker = or_str s manager_name,
                 destination_worker = Some (name (heap ?m' r))\<rparr>]
           \<and> \<not> alive (heap ?m' r)
           \<and> name (heap ?m' r) = ''ppm-'' @ STD_NAME @ ''-'' @ str_of_nat (r - next_ref m + 1)"
      using n cnt assms(1) by simp
  qed
  have g5: "global_exit_event ?m' = global_exit_event m"
    using ev by (simp add: dispatch_broadcast_fields)
  from g1 g2 g3 g4 g5 show ?thesis by (intro exI [of _ ?m'] conjI)
qed

section \<open>Terminating an empty pool\<close>

lemma terminate_lazy:
  assumes "created_workers m = []" and "running_workers m = []"
    and "spawn_workers False m = Inr m1"
  shows "terminate m = Inr (dispatch PushOutput (PStr ''stop'') None True m1)"
  unfolding terminate_empty_pool [OF assms(1) assms(2)]
  by (rule push_to_queue_lazy(2) [OF assms(1) assms(3)])

lemma or_str_None: "or_str None d = d"
  by (simp add: or_str_def)

lemma fresh_manager_fields:
  "created_workers (fresh_manager mw) = []"
  "running_workers (fresh_manager mw) = []"
  "WORKER_CLASS (fresh_manager mw)"
  "max_workers (fresh_manager mw) = mw"
  "next_ref (fresh_manager mw) = 0"
  "global_exit_event (fresh_manager mw) = False"
  "entropy (fresh_manager mw) = []"
  "input_datasets (fresh_manager mw) = []"
  "output_datasets (fresh_manager mw) = []"
  "configuration_datasets (fresh_manager mw) = []"
  "heap (fresh_manager mw) = (\<lambda>r. no_worker)"
  by (simp_all add: fresh_manager_def)

text \<open>
  C1 as stated fails: the \<open>push_to_output_queues\<close> call that ends \<open>terminate\<close> is
  decorated with \<open>ensure_worker_spawned\<close>, which finds \<open>created_workers\<close> empty and
  spawns \<open>max_workers\<close> workers. On a fresh manager with \<open>max_workers = 2\<close>,
  \<open>terminate\<close> returns with two workers in \<open>created_workers\<close>.
\<close>

theorem terminate_empty_pool_counterexample:
  "created_workers (fresh_manager (PInt 2)) = []
   \<and> running_workers (fresh_manager (PInt 2)) = []
   \<and> map_sum fst created_workers (terminate (fresh_manager (PInt 2))) = Inr [0, 1]"
proof -
  let ?M = "fresh_manager (PInt 2)"
  have "\<exists>m'. terminate ?M = Inr m'
     \<and> running_workers m' = []
     \<and> created_workers m' = [next_ref ?M ..< next_ref ?M + nat 2]
     \<and> (\<forall>r \<in> set (created_workers m').
           calls (heap m' r) =
             [PushOutput \<lparr>payload = PStr ''stop'', source_worker = or_str None manager_name,
                 destination_worker = Some (name (heap m' r))\<rparr>]
           \<and> \<not> alive (heap m' r)
           \<and> name (heap m' r) = ''ppm-'' @ STD_NAME @ ''-'' @ str_of_nat (r - next_ref ?M + 1))
     \<and> global_exit_event m' = global_exit_event ?M"
    by (rule broadcast_lazy [where k = 2]) (simp_all add: fresh_manager_fields terminate_lazy)
  then obtain m' where t: "terminate ?M = Inr m'"
    and c: "created_workers m' = [next_ref ?M ..< next_ref ?M + nat 2]"
    by (elim exE conjE)
  have "[next_ref ?M ..< next_ref ?M + nat 2] = [0, 1]"
    by (simp add: fresh_manager_fields upt_rec)
  with c have cc: "created_workers m' = [0, 1]" by simp
  have g: "map_sum fst created_workers (terminate ?M) = Inr [0, 1]"
    unfolding t by (simp add: cc)
  show ?thesis by (intro conjI fresh_manager_fields(1) fresh_manager_fields(2) g)
qed

text \<open>
  C1, amended: on a manager with a worker class and an integer \<open>max_workers = k\<close>
  whose two cohorts are empty, \<open>terminate\<close> returns; \<open>running_workers\<close> is still
  empty; \<open>created_workers\<close> holds the \<open>k\<close> workers the call has spawned (none when
  \<open>k \<le> 0\<close>), none of them started; each of them was given the payload \<open>"stop"\<close>
  on its output channels once, addressed to itself, from the manager; and the global exit
  event is as it was.
\<close>

theorem terminate_on_empty_pool:
  assumes "created_workers m = []" and "running_workers m = []" and "WORKER_CLASS m"
    and "max_workers m = PInt k"
  shows "\<exists>m'. terminate m = Inr m'
     \<and> running_workers m' = []
     \<and> created_workers m' = [next_ref m ..< next_ref m + nat k]
     \<and> (\<forall>r \<in> set (created_workers m').
           calls (heap m' r) =
             [PushOutput \<lparr>payload = PStr ''stop'', source_worker = manager_name,
                 destination_worker = Some (name (heap m' r))\<rparr>]
           \<and> \<not> alive (heap m' r))
     \<and> global_exit_event m' = global_exit_event m"
proof (cases "0 \<le> k")
  case True
  have "\<exists>m'. terminate m = Inr m'
     \<and> running_workers m' = []
     \<and> created_workers m' = [next_ref m ..< next_ref m + nat k]
     \<and> (\<forall>r \<in> set (created_workers m').
           calls (heap m' r) =
             [PushOutput \<lparr>payload = PStr ''stop'', source_worker = or_str None manager_name,
                 destination_worker = Some (name (heap m' r))\<rparr>]
           \<and> \<not> alive (heap m' r)
           \<and> name (heap m' r) = ''ppm-'' @ STD_NAME @ ''-'' @ str_of_nat (r - next_ref m + 1))
     \<and> global_exit_event m' = global_exit_event m"
    using assms True by (rule broadcast_lazy) (rule terminate_lazy [OF assms(1) assms(2)])
  then obtain m' where f: "terminate m = Inr m'" "running_workers m' = []"
    "created_workers m' = [next_ref m ..< next_ref m + nat k]"
    "\<forall>r \<in> set (created_workers m').
           calls (heap m' r) =
             [PushOutput \<lparr>payload = PStr ''stop'', source_worker = or_str None manager_name,
                 destination_worker = Some (name (heap m' r))\<rparr>]
           \<and> \<not> alive (heap m' r)
           \<and> name (heap m' r) = ''ppm-'' @ STD_NAME @ ''-'' @ str_of_nat (r - next_ref m + 1)"
    "global_exit_event m' = global_exit_event m"
    by (elim exE conjE)
  from f(4) have g: "\<forall>r \<in> set (created_workers m').
           calls (heap m' r) =
             [PushOutput \<lparr>payload = PStr ''stop'', source_worker = manager_name,
                 destination_worker = Some (name (heap m' r))\<rparr>]
           \<and> \<not> alive (heap m' r)"
    unfolding or_str_None by blast
  from f(1) f(2) f(3) g f(5) show ?thesis by (intro exI [of _ m'] conjI)
next
  case False
  then have k0: "nat k = 0" by simp
  have sp: "spawn_workers False m = Inr m"
    using assms(4) k0 by (simp add: spawn_workers_def)
  let ?m' = "dispatch PushOutput (PStr ''stop'') None True m"
  have t: "terminate m = Inr ?m'" by (rule terminate_lazy [OF assms(1) assms(2) sp])
  have r: "running_workers ?m' = []" using assms(2) by (simp add: dispatch_broadcast_fields)
  have c: "created_workers ?m' = [next_ref m ..< next_ref m + nat k]"
    using assms(1) k0 by (simp add: dispatch_broadcast_fields)
  have a: "\<forall>r \<in> set (created_workers ?m').
           calls (heap ?m' r) =
             [PushOutput \<lparr>payload = PStr ''stop'', source_worker = manager_name,
                 destination_worker = Some (name (heap ?m' r))\<rparr>]
           \<and> \<not> alive (heap ?m' r)"
    unfolding c k0 by simp
  have e: "global_exit_event ?m' = global_exit_event m"
    by (simp add: dispatch_broadcast_fields)
  from t r c a e show ?thesis by (intro exI [of _ ?m'] conjI)
qed

theorem terminate_on_empty_pool_witness:
  "\<exists>m'. terminate (fresh_manager (PInt 2)) = Inr m'
     \<and> running_workers m' = []
     \<and> created_workers m' = [0, 1]
     \<and> calls (heap m' 0) =
             [PushOutput \<lparr>payload = PStr ''stop'', source_worker = manager_name,
                 destination_worker = Some (name (heap m' 0))\<rparr>]
     \<and> calls (heap m' 1) =
             [PushOutput \<lparr>payload = PStr ''stop'', source_worker = manager_name,
                 destination_worker = Some (name (heap m' 1))\<rparr>]
     \<and> \<not> alive (heap m' 0) \<and> \<not> alive (heap m' 1)
     \<and> \<not> global_exit_event m'"
proof -
  let ?M = "fresh_manager (PInt 2)"
  have u: "[next_ref ?M ..< next_ref ?M + nat 2] = [0, 1]"
    by (simp add: fresh_manager_fields upt_rec)
  from terminate_on_empty_pool [of ?M 2, OF fresh_manager_fields(1) fresh_manager_fields(2)
      fresh_manager_fields(3) fresh_manager_fields(4)]
  obtain m' where f: "terminate ?M = Inr m'" "running_workers m' = []"
    "created_workers m' = [next_ref ?M ..< next_ref ?M + nat 2]"
    "\<forall>r \<in> set (created_workers m').
           calls (heap m' r) =
             [PushOutput \<lparr>payload = PStr ''stop'', source_worker = manager_name,
                 destination_worker = Some (name (heap m' r))\<rparr>]
           \<and> \<not> alive (heap m' r)"
    "global_exit_event m' = global_exit_event ?M"
    by (elim exE conjE)
  have c: "created_workers m' = [0, 1]" using f(3) unfolding u .
  have g: "\<not> global_exit_event m'" using f(5) by (simp add: fresh_manager_fields)
  from f(4) c have w0: "calls (heap m' 0) =
             [PushOutput \<lparr>payload = PStr ''stop'', source_worker = manager_name,
                 destination_worker = Some (name (heap m' 0))\<rparr>]" "\<not> alive (heap m' 0)"
    by simp_all
  from f(4) c have w1: "calls (heap m' 1) =
             [PushOutput \<lparr>payload = PStr ''stop'', source_worker = manager_name,
                 destination_worker = Some (name (heap m' 1))\<rparr>]" "\<not> alive (heap m' 1)"
    by simp_all
  from f(1) f(2) c w0 w1 g show ?thesis by (intro exI [of _ m'] conjI)
qed

section \<open>Broadcasting to the input queues\<close>

text \<open>
  C5: take a call \<open>push_to_input_queue(d, source_worker=s, all_queues=True)\<close> whose
  decorator leaves the manager \<open>m1\<close> (the manager itself when \<open>created_workers\<close> is not
  empty, the manager after \<open>spawn_workers(start=False)\<close> otherwise), and let the cohort
  be \<open>running_workers\<close> of \<open>m1\<close> when a worker is running and \<open>created_workers\<close>
  otherwise. The call returns, and every worker has received one input envelope for each
  of its occurrences in the cohort, with payload \<open>d\<close> and its own name as destination,
  and nothing else: when the cohort lists each of its \<open>N\<close> workers once, each of them has
  received exactly one such envelope, and a worker outside the cohort none.
\<close>

theorem push_to_input_queue_broadcast:
  assumes "(if created_workers m = [] then spawn_workers False m else Inr m) = Inr m1"
    and "cohort = (if is_running m1 then running_workers m1 else created_workers m1)"
  shows "\<exists>m'. push_to_input_queue d s True m = Inr m'
     \<and> (\<forall>r. calls (heap m' r) =
            calls (heap m1 r) @ replicate (count_list cohort r)
              (PushInput \<lparr>payload = d, source_worker = or_str s manager_name,
                           destination_worker = Some (name (heap m' r))\<rparr>))
     \<and> (distinct cohort \<longrightarrow>
          (\<forall>r \<in> set cohort. calls (heap m' r) =
            calls (heap m1 r) @
              [PushInput \<lparr>payload = d, source_worker = or_str s manager_name,
                           destination_worker = Some (name (heap m' r))\<rparr>]))
     \<and> (\<forall>r. r \<notin> set cohort \<longrightarrow> heap m' r = heap m1 r)
     \<and> (\<forall>r. name (heap m' r) = name (heap m1 r))
     \<and> created_workers m' = created_workers m1
     \<and> running_workers m' = running_workers m1"
proof -
  let ?m' = "dispatch PushInput d s True m1"
  have g1: "push_to_input_queue d s True m = Inr ?m'"
  proof (cases "created_workers m = []")
    case True
    with assms(1) have "spawn_workers False m = Inr m1" by simp
    with True show ?thesis by (rule push_to_queue_lazy(1))
  next
    case False
    with assms(1) have e: "m1 = m" by simp
    show ?thesis unfolding e by (rule push_to_queue_spawned(1) [OF False])
  qed
  have h: "heap ?m' = push_each PushInput d (or_str s manager_name) cohort (heap m1)"
    unfolding assms(2) by (rule dispatch_broadcast_fields(8))
  have nm: "\<And>r. name (heap ?m' r) = name (heap m1 r)"
    unfolding h by (rule push_each_name)
  have g2: "\<forall>r. calls (heap ?m' r) =
            calls (heap m1 r) @ replicate (count_list cohort r)
              (PushInput \<lparr>payload = d, source_worker = or_str s manager_name,
                           destination_worker = Some (name (heap ?m' r))\<rparr>)"
    unfolding nm unfolding h by (intro allI push_each_calls)
  have g3: "distinct cohort \<longrightarrow>
          (\<forall>r \<in> set cohort. calls (heap ?m' r) =
            calls (heap m1 r) @
              [PushInput \<lparr>payload = d, source_worker = or_str s manager_name,
                           destination_worker = Some (name (heap ?m' r))\<rparr>])"
  proof (intro impI ballI)
    fix r assume "distinct cohort" and "r \<in> set cohort"
    then have "count_list cohort r = 1" by (rule distinct_count_list)
    with g2 [THEN spec, of r] show "calls (heap ?m' r) =
            calls (heap m1 r) @
              [PushInput \<lparr>payload = d, source_worker = or_str s manager_name,
                           destination_worker = Some (name (heap ?m' r))\<rparr>]"
      by simp
  qed
  have g4: "\<forall>r. r \<notin> set cohort \<longrightarrow> heap ?m' r = heap m1 r"
    unfolding h by (intro allI impI push_each_other)
  have g5: "\<forall>r. name (heap ?m' r) = name (heap m1 r)" using nm by blast
  have g6: "created_workers ?m' = created_workers m1" by (rule dispatch_broadcast_fields(1))
  have g7: "running_workers ?m' = running_workers m1" by (rule dispatch_broadcast_fields(2))
  from g1 g2 g3 g4 g5 g6 g7 show ?thesis by (intro exI [of _ ?m'] conjI)
qed


theorem push_to_input_queue_broadcast_witness:
  "\<exists>m'. push_to_input_queue (PStr ''test_data'') None True (fresh_manager (PInt 3)) = Inr m'
     \<and> created_workers m' = [0, 1, 2]
     \<and> calls (heap m' 0) =
          [PushInput \<lparr>payload = PStr ''test_data'', source_worker = manager_name,
                       destination_worker = Some ''ppm-pyfunceble-process-manager-1''\<rparr>]
     \<and> calls (heap m' 1) =
          [PushInput \<lparr>payload = PStr ''test_data'', source_worker = manager_name,
                       destination_worker = Some ''ppm-pyfunceble-process-manager-2''\<rparr>]
     \<and> calls (heap m' 2) =
          [PushInput \<lparr>payload = PStr ''test_data'', source_worker = manager_name,
                       destination_worker = Some ''ppm-pyfunceble-process-manager-3''\<rparr>]
"
proof -
  let ?M = "fresh_manager (PInt 3)"
  let ?d = "PStr ''test_data''"
  have u: "[next_ref ?M ..< next_ref ?M + nat 3] = [0, 1, 2]"
    by (simp add: fresh_manager_fields upt_rec)
  from lazy_spawn [of ?M 3, OF fresh_manager_fields(2) fresh_manager_fields(3)
      fresh_manager_fields(4)]
  obtain m1 where sp: "spawn_workers False ?M = Inr m1"
    and c: "created_workers m1 = created_workers ?M @ [next_ref ?M ..< next_ref ?M + nat 3]"
    and ru: "running_workers m1 = []"
    and new: "\<forall>x. next_ref ?M \<le> x \<and> x < next_ref ?M + nat 3 \<longrightarrow>
           calls (heap m1 x) = [] \<and> \<not> alive (heap m1 x)
           \<and> name (heap m1 x) = ''ppm-'' @ STD_NAME @ ''-''
                @ str_of_nat (length (created_workers ?M) + (x - next_ref ?M) + 1)"
    by simp (elim exE conjE)
  have c1: "created_workers m1 = [0, 1, 2]"
    using c unfolding u by (simp add: fresh_manager_fields)
  have e: "(if created_workers ?M = [] then spawn_workers False ?M else Inr ?M) = Inr m1"
    using sp by (simp add: fresh_manager_fields)
  have co: "[0, 1, 2] = (if is_running m1 then running_workers m1 else created_workers m1)"
    using is_running_Nil [OF ru] c1 by simp
  from push_to_input_queue_broadcast [OF e co, of ?d None]
  obtain m' where p: "push_to_input_queue ?d None True ?M = Inr m'"
    and one: "distinct [0, 1, 2::nat] \<longrightarrow>
          (\<forall>r \<in> set [0, 1, 2]. calls (heap m' r) =
            calls (heap m1 r) @
              [PushInput \<lparr>payload = ?d, source_worker = or_str None manager_name,
                           destination_worker = Some (name (heap m' r))\<rparr>])"
    and other: "\<forall>r. r \<notin> set [0, 1, 2] \<longrightarrow> heap m' r = heap m1 r"
    and nm: "\<forall>r. name (heap m' r) = name (heap m1 r)"
    and c': "created_workers m' = created_workers m1"
    by (elim exE conjE)
  have n: "calls (heap m1 0) = []" "calls (heap m1 1) = []" "calls (heap m1 2) = []"
    "name (heap m1 0) = ''ppm-pyfunceble-process-manager-1''"
    "name (heap m1 1) = ''ppm-pyfunceble-process-manager-2''"
    "name (heap m1 2) = ''ppm-pyfunceble-process-manager-3''"
    using new [THEN spec, of 0] new [THEN spec, of 1] new [THEN spec, of 2]
    by (simp_all add: fresh_manager_fields STD_NAME_def str_of_nat.simps)
  have g2: "created_workers m' = [0, 1, 2]" using c' c1 by simp
  have g3: "calls (heap m' 0) =
          [PushInput \<lparr>payload = ?d, source_worker = manager_name,
                       destination_worker = Some ''ppm-pyfunceble-process-manager-1''\<rparr>]"
    using one nm n by (simp add: or_str_None)
  have g4: "calls (heap m' 1) =
          [PushInput \<lparr>payload = ?d, source_worker = manager_name,
                       destination_worker = Some ''ppm-pyfunceble-process-manager-2''\<rparr>]"
    using one nm n by (simp add: or_str_None)
  have g5: "calls (heap m' 2) =
          [PushInput \<lparr>payload = ?d, source_worker = manager_name,
                       destination_worker = Some ''ppm-pyfunceble-process-manager-3''\<rparr>]"
    using one nm n by (simp add: or_str_None)
  from p g2 g3 g4 g5 show ?thesis by (intro exI [of _ m'] conjI)
qed

end
